theory Spec2Isabelle
  imports Main "HOL-Library.Word"
begin

unbundle bit_operations_syntax

section \<open>Bytes, strings and errors\<close>

text \<open>
  A C \<open>char\<close> is a byte. A bytecode program is the C string \<open>argv[1]\<close>: the model holds
  the characters in front of the terminating NUL as a list; index \<open>length code\<close> reads
  the terminator, and any index beyond it lies outside the string.
\<close>

type_synonym byte = "8 word"

definition cstr :: "string \<Rightarrow> byte list" where
  "cstr s = map of_char s"

text \<open>
  What can stop either program. \<open>Undefined_instruction\<close> is the \<open>default:\<close> branch of
  both switches: the message on stderr prints the rest of the program (\<open>%s\<close> of
  \<open>code\<close>) and the offending character (\<open>%x\<close> of \<open>*code\<close>), then \<open>exit(1)\<close>.
  The other three are the places where the C code leaves defined behaviour: a write beyond
  the one page that \<open>mmap\<close> returned, a read beyond the terminator of the program
  string, and an access outside the register array.
\<close>

datatype error =
    Undefined_instruction "byte list" byte
  | Page_overrun
  | Read_past_terminator
  | Out_of_bounds

section \<open>micro-asm.h\<close>

text \<open>
  \<open>microasm\<close> holds the write pointer \<open>dest\<close> into the page. The model keeps the
  bytes written so far, so that the pointer is the page base plus their number. The page
  is the 4096 bytes requested from \<open>mmap\<close> in \<open>compile\<close> (the call is taken to
  succeed; the source does not test its result).
\<close>

record microasm =
  dest :: "byte list"

definition page_size :: nat where
  "page_size = 4096"

definition xmm :: "byte \<Rightarrow> byte" where
  "xmm n = n"

text \<open>\<open>asm_write(a, n, ...)\<close> stores the first \<open>n\<close> variadic arguments, each cast to \<open>char\<close>.\<close>

definition asm_write :: "microasm \<Rightarrow> nat \<Rightarrow> byte list \<Rightarrow> error + microasm" where
  "asm_write a n bytes =
     (if length (dest a) + length (take n bytes) \<le> page_size
      then Inr (a\<lparr>dest := dest a @ take n bytes\<rparr>)
      else Inl Page_overrun)"

definition movpd_reg_memory :: "microasm \<Rightarrow> byte \<Rightarrow> byte \<Rightarrow> error + microasm" where
  "movpd_reg_memory a reg disp = asm_write a 5 [0x66, 0x0f, 0x11, 0x47 OR push_bit 3 reg, disp]"

definition movpd_memory_reg :: "microasm \<Rightarrow> byte \<Rightarrow> byte \<Rightarrow> error + microasm" where
  "movpd_memory_reg a disp reg = asm_write a 5 [0x66, 0x0f, 0x10, 0x47 OR push_bit 3 reg, disp]"

definition addpd_memory_reg :: "microasm \<Rightarrow> byte \<Rightarrow> byte \<Rightarrow> error + microasm" where
  "addpd_memory_reg a disp reg = asm_write a 5 [0x66, 0x0f, 0x58, 0x47 OR push_bit 3 reg, disp]"

definition movsd_reg_memory :: "microasm \<Rightarrow> byte \<Rightarrow> byte \<Rightarrow> error + microasm" where
  "movsd_reg_memory a reg disp = asm_write a 5 [0xf2, 0x0f, 0x11, 0x47 OR push_bit 3 reg, disp]"

definition movsd_memory_reg :: "microasm \<Rightarrow> byte \<Rightarrow> byte \<Rightarrow> error + microasm" where
  "movsd_memory_reg a disp reg = asm_write a 5 [0xf2, 0x0f, 0x10, 0x47 OR push_bit 3 reg, disp]"

definition movsd_reg_reg :: "microasm \<Rightarrow> byte \<Rightarrow> byte \<Rightarrow> error + microasm" where
  "movsd_reg_reg a src dst = asm_write a 4 [0xf2, 0x0f, 0x11, 0xc0 OR push_bit 3 src OR dst]"

definition mulsd :: "microasm \<Rightarrow> byte \<Rightarrow> byte \<Rightarrow> error + microasm" where
  "mulsd a src dst = asm_write a 4 [0xf2, 0x0f, 0x59, 0xc0 OR push_bit 3 dst OR src]"

definition addsd :: "microasm \<Rightarrow> byte \<Rightarrow> byte \<Rightarrow> error + microasm" where
  "addsd a src dst = asm_write a 4 [0xf2, 0x0f, 0x58, 0xc0 OR push_bit 3 dst OR src]"

definition subsd :: "microasm \<Rightarrow> byte \<Rightarrow> byte \<Rightarrow> error + microasm" where
  "subsd a src dst = asm_write a 4 [0xf2, 0x0f, 0x5c, 0xc0 OR push_bit 3 dst OR src]"

section \<open>mandeljit.c\<close>

text \<open>
  A run of statements \<open>f1(&a, ...); f2(&a, ...); ...\<close> on the same assembler: each
  works on what the one before left, and the first failure ends the run.
\<close>

fun chain :: "('s \<Rightarrow> error + 's) list \<Rightarrow> 's \<Rightarrow> error + 's" where
  "chain [] a = Inr a"
| "chain (f # fs) a = (case f a of Inl e \<Rightarrow> Inl e | Inr a' \<Rightarrow> chain fs a')"

definition sizeof_complex :: int where
  "sizeof_complex = 16"

definition offsetof_r :: byte where
  "offsetof_r = 0"

definition offsetof_i :: byte where
  "offsetof_i = 8"

text \<open>
  \<open>sizeof(complex) * (code[k] - 'a')\<close>, stored into a \<open>char\<close>: the character is
  promoted to \<open>int\<close> (\<open>char\<close> is signed on the x86-64 targets the emitted code is
  for), and the assignment keeps the low eight bits of the product.
\<close>

definition dsp :: "byte \<Rightarrow> byte" where
  "dsp c = word_of_int (sizeof_complex * (sint c - 0x61))"

text \<open>
  The body of the \<open>for\<close> loop of \<open>compile\<close> for the instruction \<open>c s d\<close>;
  \<open>code\<close> is the program from this instruction on, which only the error message uses.
  The cases are \<open>'='\<close>, \<open>'+'\<close>, \<open>'*'\<close> and \<open>default\<close>.
\<close>

definition compile_instr :: "microasm \<Rightarrow> byte \<Rightarrow> byte \<Rightarrow> byte \<Rightarrow> byte list \<Rightarrow> error + microasm" where
  "compile_instr a c s d code =
     (let src_dsp = dsp s; dst_dsp = dsp d in
      if c = 0x3d then
        chain [\<lambda>a. movpd_memory_reg a src_dsp (xmm 0),
               \<lambda>a. movpd_reg_memory a (xmm 0) dst_dsp] a
      else if c = 0x2b then
        chain [\<lambda>a. movpd_memory_reg a src_dsp (xmm 0),
               \<lambda>a. addpd_memory_reg a dst_dsp (xmm 0),
               \<lambda>a. movpd_reg_memory a (xmm 0) dst_dsp] a
      else if c = 0x2a then
        chain [\<lambda>a. movsd_memory_reg a (src_dsp + offsetof_r) (xmm 0),
               \<lambda>a. movsd_memory_reg a (src_dsp + offsetof_i) (xmm 1),
               \<lambda>a. movsd_memory_reg a (dst_dsp + offsetof_r) (xmm 2),
               \<lambda>a. movsd_memory_reg a (dst_dsp + offsetof_i) (xmm 3),
               \<lambda>a. movsd_reg_reg a (xmm 0) (xmm 4),
               \<lambda>a. mulsd a (xmm 2) (xmm 4),
               \<lambda>a. movsd_reg_reg a (xmm 1) (xmm 5),
               \<lambda>a. mulsd a (xmm 3) (xmm 5),
               \<lambda>a. subsd a (xmm 5) (xmm 4),
               \<lambda>a. movsd_reg_memory a (xmm 4) (dst_dsp + offsetof_r),
               \<lambda>a. mulsd a (xmm 0) (xmm 3),
               \<lambda>a. mulsd a (xmm 1) (xmm 2),
               \<lambda>a. addsd a (xmm 3) (xmm 2),
               \<lambda>a. movsd_reg_memory a (xmm 2) (dst_dsp + offsetof_i)] a
      else Inl (Undefined_instruction code c))"

text \<open>
  The loop \<open>for (; *code; code += 3)\<close>. It ends at a NUL in an opcode position. Both
  operand characters are read before the switch; with two characters left the second
  operand is the terminator itself, and the step \<open>code += 3\<close> then leaves the string;
  with one character left the second operand already lies beyond the terminator.
\<close>

fun compile_loop :: "microasm \<Rightarrow> byte list \<Rightarrow> error + microasm" where
  "compile_loop a [] = Inr a"
| "compile_loop a [c] = (if c = 0 then Inr a else Inl Read_past_terminator)"
| "compile_loop a [c, s] =
     (if c = 0 then Inr a
      else (case compile_instr a c s 0 [c, s] of
              Inl e \<Rightarrow> Inl e
            | Inr a' \<Rightarrow> Inl Read_past_terminator))"
| "compile_loop a (c # s # d # rest) =
     (if c = 0 then Inr a
      else (case compile_instr a c s d (c # s # d # rest) of
              Inl e \<Rightarrow> Inl e
            | Inr a' \<Rightarrow> compile_loop a' rest))"

text \<open>
  \<open>compile\<close> returns the page as a function pointer; the model returns the bytes written
  to it, the last one by \<open>asm_write(&a, 1, 0xc3)\<close>.
\<close>

definition compile :: "byte list \<Rightarrow> error + byte list" where
  "compile code =
     (case compile_loop \<lparr>dest = []\<rparr> code of
        Inl e \<Rightarrow> Inl e
      | Inr a \<Rightarrow> (case asm_write a 1 [0xc3] of
                   Inl e \<Rightarrow> Inl e
                 | Inr a' \<Rightarrow> Inr (dest a')))"

section \<open>simple.c\<close>

text \<open>
  \<open>typedef struct { double r; double i; } complex\<close>. The type \<open>'d\<close> stands for the
  64-bit patterns of \<open>double\<close>; the arithmetic on them is a parameter, the three scalar
  operations that both the C expressions and the SSE2 instructions stand for, together
  with the pattern of \<open>+0.0\<close>.
\<close>

record 'd complex =
  r :: 'd
  i :: 'd

record 'd fpu =
  fadd :: "'d \<Rightarrow> 'd \<Rightarrow> 'd"
  fsub :: "'d \<Rightarrow> 'd \<Rightarrow> 'd"
  fmul :: "'d \<Rightarrow> 'd \<Rightarrow> 'd"
  fzero :: 'd

text \<open>The stores \<open>p->r = v\<close> and \<open>p->i = v\<close> through a pointer to element \<open>k\<close>.\<close>

definition store_r :: "'d complex list \<Rightarrow> nat \<Rightarrow> 'd \<Rightarrow> 'd complex list" where
  "store_r registers k v = registers[k := (registers ! k)\<lparr>r := v\<rparr>]"

definition store_i :: "'d complex list \<Rightarrow> nat \<Rightarrow> 'd \<Rightarrow> 'd complex list" where
  "store_i registers k v = registers[k := (registers ! k)\<lparr>i := v\<rparr>]"



section \<open>The target machine\<close>

text \<open>
  The emitted bytes are x86-64 machine code. This is the part of the SSE2 instruction
  set that the encoders of micro-asm.h produce, named as the header names them: the
  packed moves and the packed add with a memory operand \<open>disp8(%rdi)\<close>, the scalar moves
  between memory and register, the scalar register-to-register move, multiply, add and
  subtract, and \<open>ret\<close>. There is no compare and no branch among them.

  A register operand is the number of an xmm register; a memory operand is the signed
  displacement from \<open>%rdi\<close>, which holds the one argument of the routine, the address
  of the register file.
\<close>

datatype instr =
    Movpd_reg_memory nat int
  | Movpd_memory_reg int nat
  | Addpd_memory_reg int nat
  | Movsd_reg_memory nat int
  | Movsd_memory_reg int nat
  | Movsd_reg_reg nat nat
  | Mulsd nat nat
  | Addsd nat nat
  | Subsd nat nat
  | Ret

text \<open>The fields of a ModRM byte: \<open>mod\<close> in bits 7-6, \<open>reg\<close> in bits 5-3, \<open>rm\<close> in bits 2-0.\<close>

definition modrm_mod :: "byte \<Rightarrow> nat" where
  "modrm_mod m = unat (drop_bit 6 m)"

definition modrm_reg :: "byte \<Rightarrow> nat" where
  "modrm_reg m = unat (drop_bit 3 m AND 7)"

definition modrm_rm :: "byte \<Rightarrow> nat" where
  "modrm_rm m = unat (m AND 7)"

text \<open>
  Decoding the instruction at the head of a byte sequence: \<open>c3\<close> is \<open>ret\<close>; otherwise
  a prefix byte, the escape \<open>0f\<close>, the opcode and a ModRM byte, which either names two
  registers (\<open>mod = 3\<close>) or the memory operand \<open>disp8(%rdi)\<close> (\<open>mod = 1\<close>, \<open>rm = 7\<close>),
  followed by the displacement byte. In the store forms (opcode \<open>11\<close>) the \<open>reg\<close> field
  is the source; in all others it is the destination. Anything else is outside the model.
\<close>

fun decode :: "byte list \<Rightarrow> (instr \<times> byte list) option" where
  "decode [] = None"
| "decode (p # bs) =
     (if p = 0xc3 then Some (Ret, bs)
      else case bs of
        e # opc # m # rest \<Rightarrow>
          if e \<noteq> 0x0f then None
          else if modrm_mod m = 3 then
            (if p = 0xf2 \<and> opc = 0x11 then Some (Movsd_reg_reg (modrm_reg m) (modrm_rm m), rest)
             else if p = 0xf2 \<and> opc = 0x59 then Some (Mulsd (modrm_rm m) (modrm_reg m), rest)
             else if p = 0xf2 \<and> opc = 0x58 then Some (Addsd (modrm_rm m) (modrm_reg m), rest)
             else if p = 0xf2 \<and> opc = 0x5c then Some (Subsd (modrm_rm m) (modrm_reg m), rest)
             else None)
          else if modrm_mod m = 1 \<and> modrm_rm m = 7 then
            (case rest of
               [] \<Rightarrow> None
             | disp # rest' \<Rightarrow>
                 if p = 0x66 \<and> opc = 0x11 then Some (Movpd_reg_memory (modrm_reg m) (sint disp), rest')
                 else if p = 0x66 \<and> opc = 0x10 then Some (Movpd_memory_reg (sint disp) (modrm_reg m), rest')
                 else if p = 0x66 \<and> opc = 0x58 then Some (Addpd_memory_reg (sint disp) (modrm_reg m), rest')
                 else if p = 0xf2 \<and> opc = 0x11 then Some (Movsd_reg_memory (modrm_reg m) (sint disp), rest')
                 else if p = 0xf2 \<and> opc = 0x10 then Some (Movsd_memory_reg (sint disp) (modrm_reg m), rest')
                 else None)
          else None
      | _ \<Rightarrow> None)"

text \<open>
  The state a routine works on: the xmm registers, each two 64-bit lanes (low, high),
  and the memory at \<open>%rdi\<close> that the caller passed, as 8-byte cells; cell \<open>k\<close> is at
  displacement \<open>8 * k\<close>. The model covers accesses at multiples of 8 and has no memory
  other than the caller's region: an access anywhere else is the fault \<open>Outside\<close>.
\<close>

record 'd machine =
  regs :: "nat \<Rightarrow> 'd \<times> 'd"
  mem :: "'d list"

datatype fault =
    Outside int
  | Illegal_instruction

definition cell :: "'d machine \<Rightarrow> int \<Rightarrow> nat \<Rightarrow> bool" where
  "cell m disp n = (0 \<le> disp \<and> disp mod 8 = 0 \<and> nat (disp div 8) + n \<le> length (mem m))"

definition load64 :: "'d machine \<Rightarrow> int \<Rightarrow> fault + 'd" where
  "load64 m disp =
     (if cell m disp 1 then Inr (mem m ! nat (disp div 8)) else Inl (Outside disp))"

definition load128 :: "'d machine \<Rightarrow> int \<Rightarrow> fault + 'd \<times> 'd" where
  "load128 m disp =
     (if cell m disp 2 then Inr (mem m ! nat (disp div 8), mem m ! (nat (disp div 8) + 1))
      else Inl (Outside disp))"

definition store64 :: "'d machine \<Rightarrow> int \<Rightarrow> 'd \<Rightarrow> fault + 'd machine" where
  "store64 m disp v =
     (if cell m disp 1 then Inr (m\<lparr>mem := (mem m)[nat (disp div 8) := v]\<rparr>)
      else Inl (Outside disp))"

definition store128 :: "'d machine \<Rightarrow> int \<Rightarrow> 'd \<times> 'd \<Rightarrow> fault + 'd machine" where
  "store128 m disp v =
     (if cell m disp 2
      then Inr (m\<lparr>mem := (mem m)[nat (disp div 8) := fst v, nat (disp div 8) + 1 := snd v]\<rparr>)
      else Inl (Outside disp))"

definition set_reg :: "'d machine \<Rightarrow> nat \<Rightarrow> 'd \<times> 'd \<Rightarrow> 'd machine" where
  "set_reg m x v = m\<lparr>regs := (regs m)(x := v)\<rparr>"

text \<open>
  One instruction. The packed forms work on both lanes; the scalar forms work on the low
  lane and keep the high lane of the destination, except the scalar load from memory,
  which clears it. The arithmetic forms compute \<open>dst op src\<close> into \<open>dst\<close>.
\<close>

fun exec_instr :: "'d fpu \<Rightarrow> instr \<Rightarrow> 'd machine \<Rightarrow> fault + 'd machine" where
  "exec_instr F (Movpd_reg_memory x disp) m = store128 m disp (regs m x)"
| "exec_instr F (Movpd_memory_reg disp x) m =
     (case load128 m disp of Inl f \<Rightarrow> Inl f | Inr v \<Rightarrow> Inr (set_reg m x v))"
| "exec_instr F (Addpd_memory_reg disp x) m =
     (case load128 m disp of
        Inl f \<Rightarrow> Inl f
      | Inr v \<Rightarrow> Inr (set_reg m x (fadd F (fst (regs m x)) (fst v), fadd F (snd (regs m x)) (snd v))))"
| "exec_instr F (Movsd_reg_memory x disp) m = store64 m disp (fst (regs m x))"
| "exec_instr F (Movsd_memory_reg disp x) m =
     (case load64 m disp of Inl f \<Rightarrow> Inl f | Inr v \<Rightarrow> Inr (set_reg m x (v, fzero F)))"
| "exec_instr F (Movsd_reg_reg src dst) m =
     Inr (set_reg m dst (fst (regs m src), snd (regs m dst)))"
| "exec_instr F (Mulsd src dst) m =
     Inr (set_reg m dst (fmul F (fst (regs m dst)) (fst (regs m src)), snd (regs m dst)))"
| "exec_instr F (Addsd src dst) m =
     Inr (set_reg m dst (fadd F (fst (regs m dst)) (fst (regs m src)), snd (regs m dst)))"
| "exec_instr F (Subsd src dst) m =
     Inr (set_reg m dst (fsub F (fst (regs m dst)) (fst (regs m src)), snd (regs m dst)))"
| "exec_instr F Ret m = Inr m"

text \<open>
  Running the code from its first byte: decode, execute, go on behind the instruction,
  until \<open>ret\<close> gives control back to the caller. Bytes that do not decode, and the end
  of the written bytes, are \<open>Illegal_instruction\<close>.
\<close>

function run :: "'d fpu \<Rightarrow> byte list \<Rightarrow> 'd machine \<Rightarrow> fault + 'd machine" where
  "run F bs m =
     (case decode bs of
        None \<Rightarrow> Inl Illegal_instruction
      | Some (ins, rest) \<Rightarrow>
          if ins = Ret then Inr m
          else (case exec_instr F ins m of
                  Inl f \<Rightarrow> Inl f
                | Inr m' \<Rightarrow> run F rest m'))"
  by pat_completeness auto
termination
proof (relation "measure (\<lambda>(F, bs, m). length bs)")
  show "wf (measure (\<lambda>(F :: 'd fpu, bs :: byte list, m :: 'd machine). length bs))"
    by simp
next
  fix F :: "'d fpu" and bs :: "byte list" and m m' :: "'d machine" and y ins rest
  assume "decode bs = Some y" and "(ins, rest) = y"
  then have "length rest < length bs"
    by (cases bs) (auto split: if_splits list.splits)
  then show "((F, rest, m'), (F, bs, m)) \<in> measure (\<lambda>(F, bs, m). length bs)"
    by simp
qed

declare run.simps [simp del]

text \<open>
  The register file in memory: element \<open>k\<close> of the array occupies cells \<open>2 * k\<close>
  (field \<open>r\<close>, offset 0) and \<open>2 * k + 1\<close> (field \<open>i\<close>, offset 8).
\<close>

fun cells :: "'d complex list \<Rightarrow> 'd list" where
  "cells [] = []"
| "cells (z # zs) = r z # i z # cells zs"

fun uncells :: "'d list \<Rightarrow> 'd complex list" where
  "uncells (x # y # xs) = \<lparr>r = x, i = y\<rparr> # uncells xs"
| "uncells xs = []"

text \<open>
  The call \<open>(*fn)(registers)\<close>: \<open>%rdi\<close> points to the array, the xmm registers hold
  whatever the caller left in them, and the array is read back after the return.
\<close>

definition invoke ::
  "'d fpu \<Rightarrow> byte list \<Rightarrow> (nat \<Rightarrow> 'd \<times> 'd) \<Rightarrow> 'd complex list \<Rightarrow> fault + 'd complex list" where
  "invoke F fn xmms registers =
     (case run F fn \<lparr>regs = xmms, mem = cells registers\<rparr> of
        Inl f \<Rightarrow> Inl f
      | Inr m \<Rightarrow> Inr (uncells (mem m)))"

text \<open>
  Exact arithmetic of a commutative ring, for running the model on numbers: on doubles
  that are small integers, as are all intermediate results, floating-point arithmetic is
  exact.
\<close>

definition exact :: "'a::comm_ring_1 fpu" where
  "exact = \<lparr>fadd = (+), fsub = (-), fmul = (*), fzero = 0\<rparr>"

section \<open>Notions for stating and proving the properties\<close>

text \<open>
  \<open>emits f bs\<close>: the emission step \<open>f\<close> appends exactly the bytes \<open>bs\<close> when they
  fit into the page, and overruns it otherwise.
\<close>

definition emits :: "(microasm \<Rightarrow> error + microasm) \<Rightarrow> byte list \<Rightarrow> bool" where
  "emits f bs = (\<forall>a. f a = (if length (dest a) + length bs \<le> page_size
                              then Inr (a\<lparr>dest := dest a @ bs\<rparr>) else Inl Page_overrun))"

text \<open>
  The bytes of one bytecode instruction with a known opcode, one encoder call after the
  other, with the ModRM bytes worked out.
\<close>

definition code_of :: "byte \<Rightarrow> byte \<Rightarrow> byte \<Rightarrow> byte list" where
  "code_of c s d =
     (if c = 0x3d then
        [0x66, 0x0f, 0x10, 0x47, dsp s] @ [0x66, 0x0f, 0x11, 0x47, dsp d]
      else if c = 0x2b then
        [0x66, 0x0f, 0x10, 0x47, dsp s] @ [0x66, 0x0f, 0x58, 0x47, dsp d] @
        [0x66, 0x0f, 0x11, 0x47, dsp d]
      else
        [0xf2, 0x0f, 0x10, 0x47, dsp s] @ [0xf2, 0x0f, 0x10, 0x4f, dsp s + 8] @
        [0xf2, 0x0f, 0x10, 0x57, dsp d] @ [0xf2, 0x0f, 0x10, 0x5f, dsp d + 8] @
        [0xf2, 0x0f, 0x11, 0xc4] @ [0xf2, 0x0f, 0x59, 0xe2] @
        [0xf2, 0x0f, 0x11, 0xcd] @ [0xf2, 0x0f, 0x59, 0xeb] @
        [0xf2, 0x0f, 0x5c, 0xe5] @ [0xf2, 0x0f, 0x11, 0x67, dsp d] @
        [0xf2, 0x0f, 0x59, 0xd8] @ [0xf2, 0x0f, 0x59, 0xd1] @
        [0xf2, 0x0f, 0x58, 0xd3] @ [0xf2, 0x0f, 0x11, 0x57, dsp d + 8])"

text \<open>The three opcodes \<open>'='\<close>, \<open>'+'\<close> and \<open>'*'\<close>.\<close>

definition known :: "byte \<Rightarrow> bool" where
  "known c = (c = 0x3d \<or> c = 0x2b \<or> c = 0x2a)"

text \<open>The bytes that the loop emits for a program.\<close>

fun body :: "byte list \<Rightarrow> byte list" where
  "body (c # s # d # rest) = (if c = 0 then [] else code_of c s d @ body rest)"
| "body code = []"

text \<open>A program of complete instructions with known opcodes.\<close>

fun complete :: "byte list \<Rightarrow> bool" where
  "complete [] = True"
| "complete (c # s # d # rest) = (known c \<and> complete rest)"
| "complete code = False"

text \<open>The instructions that one bytecode instruction is compiled to.\<close>

definition asm_of :: "byte \<Rightarrow> byte \<Rightarrow> byte \<Rightarrow> instr list" where
  "asm_of c s d =
     (if c = 0x3d then
        [Movpd_memory_reg (sint (dsp s)) 0, Movpd_reg_memory 0 (sint (dsp d))]
      else if c = 0x2b then
        [Movpd_memory_reg (sint (dsp s)) 0, Addpd_memory_reg (sint (dsp d)) 0,
         Movpd_reg_memory 0 (sint (dsp d))]
      else
        [Movsd_memory_reg (sint (dsp s)) 0, Movsd_memory_reg (sint (dsp s + 8)) 1,
         Movsd_memory_reg (sint (dsp d)) 2, Movsd_memory_reg (sint (dsp d + 8)) 3,
         Movsd_reg_reg 0 4, Mulsd 2 4, Movsd_reg_reg 1 5, Mulsd 3 5, Subsd 5 4,
         Movsd_reg_memory 4 (sint (dsp d)),
         Mulsd 0 3, Mulsd 1 2, Addsd 3 2,
         Movsd_reg_memory 2 (sint (dsp d + 8))])"

text \<open>\<open>decodes xs bs\<close>: the bytes \<open>bs\<close> start with the instructions \<open>xs\<close>; what follows them.\<close>

fun decodes :: "instr list \<Rightarrow> byte list \<Rightarrow> byte list option" where
  "decodes [] bs = Some bs"
| "decodes (x # xs) bs =
     (case decode bs of
        None \<Rightarrow> None
      | Some (y, rest) \<Rightarrow> if y = x then decodes xs rest else None)"

text \<open>Executing a list of instructions in sequence, up to the first fault.\<close>

fun exec_list :: "'d fpu \<Rightarrow> instr list \<Rightarrow> 'd machine \<Rightarrow> fault + 'd machine" where
  "exec_list F [] m = Inr m"
| "exec_list F (x # xs) m =
     (case exec_instr F x m of Inl f \<Rightarrow> Inl f | Inr m' \<Rightarrow> exec_list F xs m')"

text \<open>The register that an operand character names, and whether a file of \<open>n\<close> has it.\<close>

definition idx :: "byte \<Rightarrow> nat" where
  "idx c = nat (sint c - 0x61)"

definition names :: "nat \<Rightarrow> byte \<Rightarrow> bool" where
  "names n c = (0 \<le> sint c - 0x61 \<and> sint c - 0x61 < int n)"


text \<open>Decoding a whole byte sequence into instructions; \<open>None\<close> when some part does not decode.\<close>

function disasm :: "byte list \<Rightarrow> instr list option" where
  "disasm bs =
     (if bs = [] then Some []
      else case decode bs of
             None \<Rightarrow> None
           | Some (ins, rest) \<Rightarrow> map_option ((#) ins) (disasm rest))"
  by pat_completeness auto
termination
  apply (relation "measure length")
   apply simp
  subgoal for bs x ins rest
    by (cases bs) (auto split: if_splits list.splits)
  done

declare disasm.simps [simp del]




text \<open>The instructions of a whole program, in front of the final \<open>ret\<close>.\<close>

fun asm_body :: "byte list \<Rightarrow> instr list" where
  "asm_body (c # s # d # rest) = (if c = 0 then [] else asm_of c s d @ asm_body rest)"
| "asm_body code = []"

text \<open>A caller that leaves zeros in all xmm registers.\<close>

definition cleared :: "nat \<Rightarrow> 'd::zero \<times> 'd" where
  "cleared x = (0, 0)"

section \<open>Lemmas\<close>

lemma emits_asm_write: "n = length bs \<Longrightarrow> emits (\<lambda>a. asm_write a n bs) bs"
  by (simp add: emits_def asm_write_def)

lemma emits_chain_single: "emits f xs \<Longrightarrow> emits (chain [f]) xs"
  by (auto simp: emits_def)

lemma emits_chain_Cons: "emits f xs \<Longrightarrow> emits (chain fs) ys \<Longrightarrow> emits (chain (f # fs)) (xs @ ys)"
  by (auto simp: emits_def)

lemmas encoder_defs =
  movpd_reg_memory_def movpd_memory_reg_def addpd_memory_reg_def movsd_reg_memory_def
  movsd_memory_reg_def movsd_reg_reg_def mulsd_def addsd_def subsd_def

lemma emits_assign:
  "emits (\<lambda>a. compile_instr a 0x3d s d code) (code_of 0x3d s d)"
  unfolding compile_instr_def code_of_def Let_def
  apply (simp only: if_True refl)
  apply (intro emits_chain_Cons emits_chain_single)
   apply (simp_all add: emits_def encoder_defs asm_write_def xmm_def)
  done

lemma emits_add:
  "emits (\<lambda>a. compile_instr a 0x2b s d code) (code_of 0x2b s d)"
  unfolding compile_instr_def code_of_def Let_def
  apply (simp del: chain.simps append.simps)
  apply (intro emits_chain_Cons emits_chain_single)
   apply (simp_all add: emits_def encoder_defs asm_write_def xmm_def)
  done

lemma emits_multiply:
  "emits (\<lambda>a. compile_instr a 0x2a s d code) (code_of 0x2a s d)"
  unfolding compile_instr_def code_of_def Let_def
  apply (simp del: chain.simps append.simps)
  apply (intro emits_chain_Cons emits_chain_single)
   apply (simp_all add: emits_def encoder_defs asm_write_def xmm_def offsetof_r_def offsetof_i_def)
  done

lemma emits_compile_instr:
  "known c \<Longrightarrow> emits (\<lambda>a. compile_instr a c s d code) (code_of c s d)"
  unfolding known_def using emits_assign emits_add emits_multiply by blast

lemma length_code_of: "length (code_of c s d) = (if c = 0x3d then 10 else if c = 0x2b then 15 else 62)"
  by (simp add: code_of_def)

lemma compile_instr_unknown:
  "\<not> known c \<Longrightarrow> compile_instr a c s d code = Inl (Undefined_instruction code c)"
  by (simp add: known_def compile_instr_def)

lemma known_nonzero: "known c \<Longrightarrow> c \<noteq> 0"
  by (auto simp: known_def)

lemma compile_instr_Inr:
  "compile_instr a c s d code = Inr a' \<Longrightarrow>
     known c \<and> a' = a\<lparr>dest := dest a @ code_of c s d\<rparr> \<and> length (dest a') \<le> page_size"
proof (cases "known c")
  case True
  assume "compile_instr a c s d code = Inr a'"
  with emits_compile_instr [OF True, of s d code] True show ?thesis
    by (auto simp: emits_def split: if_splits)
next
  case False
  assume "compile_instr a c s d code = Inr a'"
  with compile_instr_unknown [OF False] show ?thesis by simp
qed

lemma compile_instr_fits:
  "known c \<Longrightarrow> length (dest a) + length (code_of c s d) \<le> page_size \<Longrightarrow>
     compile_instr a c s d code = Inr (a\<lparr>dest := dest a @ code_of c s d\<rparr>)"
  using emits_compile_instr [of c s d code] by (simp add: emits_def)

lemma compile_loop_Inr:
  "compile_loop a code = Inr a' \<Longrightarrow> a' = a\<lparr>dest := dest a @ body code\<rparr>"
proof (induction a code rule: compile_loop.induct)
  case (4 a c s d rest)
  show ?case
  proof (cases "c = 0")
    case True
    with 4 show ?thesis by simp
  next
    case False
    with "4.prems" obtain a1 where a1: "compile_instr a c s d (c # s # d # rest) = Inr a1"
      and l: "compile_loop a1 rest = Inr a'"
      by (auto split: sum.splits)
    from "4.IH" [OF False a1 l] compile_instr_Inr [OF a1] False show ?thesis by simp
  qed
qed (auto split: if_splits sum.splits)

lemma compile_loop_complete:
  "complete code \<Longrightarrow> length (dest a) + length (body code) \<le> page_size \<Longrightarrow>
     compile_loop a code = Inr (a\<lparr>dest := dest a @ body code\<rparr>)"
proof (induction a code rule: compile_loop.induct)
  case (4 a c s d rest)
  from "4.prems" have k: "known c" and cr: "complete rest" by simp_all
  from k have nz: "c \<noteq> 0" by (rule known_nonzero)
  let ?a1 = "a\<lparr>dest := dest a @ code_of c s d\<rparr>"
  from "4.prems" nz have fit: "length (dest a) + length (code_of c s d) \<le> page_size"
    and fit': "length (dest ?a1) + length (body rest) \<le> page_size" by simp_all
  have a1: "compile_instr a c s d (c # s # d # rest) = Inr ?a1"
    by (rule compile_instr_fits [OF k fit])
  from "4.IH" [OF nz a1 cr fit'] a1 nz show ?case by simp
qed simp_all

lemma compile_Inr:
  "compile code = Inr fn \<Longrightarrow> fn = body code @ [0xc3] \<and> length fn \<le> page_size"
  by (auto simp: compile_def asm_write_def split: sum.splits if_splits dest!: compile_loop_Inr)

lemma compile_complete:
  "complete code \<Longrightarrow> length (body code) < page_size \<Longrightarrow> compile code = Inr (body code @ [0xc3])"
  by (simp add: compile_def asm_write_def compile_loop_complete)

lemmas modrm_defs = modrm_mod_def modrm_reg_def modrm_rm_def

lemma decodes_code_of:
  "known c \<Longrightarrow> decodes (asm_of c s d) (code_of c s d @ rest) = Some rest"
  unfolding known_def
  by (elim disjE) (simp_all add: asm_of_def code_of_def modrm_defs)

lemma run_decodes:
  "decodes xs bs = Some rest \<Longrightarrow> Ret \<notin> set xs \<Longrightarrow>
     run F bs m = (case exec_list F xs m of Inl f \<Rightarrow> Inl f | Inr m' \<Rightarrow> run F rest m')"
proof (induction xs arbitrary: bs m)
  case Nil
  then show ?case by simp
next
  case (Cons x xs)
  from Cons.prems obtain bs' where d: "decode bs = Some (x, bs')" and ds: "decodes xs bs' = Some rest"
    by (auto split: option.splits if_splits)
  from Cons.prems have nr: "x \<noteq> Ret" "Ret \<notin> set xs" by auto
  show ?case
  proof (cases "exec_instr F x m")
    case (Inl f)
    with d nr show ?thesis by (subst run.simps) simp
  next
    case (Inr m')
    with d nr Cons.IH [OF ds nr(2), of m'] show ?thesis by (subst run.simps) simp
  qed
qed

lemma run_ret: "run F [0xc3] m = Inr m"
  by (subst run.simps) simp

lemma Ret_notin_asm_of: "Ret \<notin> set (asm_of c s d)"
  by (simp add: asm_of_def)

lemma sint_dsp:
  assumes "0 \<le> sint c - 0x61" "sint c - 0x61 < 8"
  shows "sint (dsp c) = 16 * (sint c - 0x61)" and "sint (dsp c + 8) = 16 * (sint c - 0x61) + 8"
proof -
  define k where "k = sint c - 0x61"
  with assms have "k \<in> {0, 1, 2, 3, 4, 5, 6, 7}" by auto
  moreover have d: "dsp c = word_of_int (16 * k)" by (simp add: dsp_def sizeof_complex_def k_def)
  ultimately show "sint (dsp c) = 16 * (sint c - 0x61)" and "sint (dsp c + 8) = 16 * (sint c - 0x61) + 8"
    unfolding d k_def [symmetric] by auto
qed

lemma length_cells [simp]: "length (cells zs) = 2 * length zs"
  by (induction zs) simp_all

lemma uncells_cells [simp]: "uncells (cells zs) = zs"
  by (induction zs) simp_all

lemma cells_nth:
  "k < length zs \<Longrightarrow> cells zs ! (2 * k) = r (zs ! k) \<and> cells zs ! Suc (2 * k) = i (zs ! k)"
proof (induction zs arbitrary: k)
  case Nil
  then show ?case by simp
next
  case (Cons z zs)
  then show ?case by (cases k) simp_all
qed

lemma cells_store_r: "k < length zs \<Longrightarrow> (cells zs)[2 * k := v] = cells (store_r zs k v)"
proof (induction zs arbitrary: k)
  case Nil
  then show ?case by simp
next
  case (Cons z zs)
  then show ?case by (cases k) (simp_all add: store_r_def)
qed

lemma cells_store_i: "k < length zs \<Longrightarrow> (cells zs)[Suc (2 * k) := v] = cells (store_i zs k v)"
proof (induction zs arbitrary: k)
  case Nil
  then show ?case by simp
next
  case (Cons z zs)
  then show ?case by (cases k) (simp_all add: store_i_def)
qed

lemma length_store_r [simp]: "length (store_r zs k v) = length zs"
  by (simp add: store_r_def)

lemma length_store_i [simp]: "length (store_i zs k v) = length zs"
  by (simp add: store_i_def)



lemma load128_ri:
  "k < length zs \<Longrightarrow>
     load128 \<lparr>regs = X, mem = cells zs\<rparr> (16 * int k) = Inr (r (zs ! k), i (zs ! k))"
proof -
  assume k: "k < length zs"
  have "nat (16 * int k div 8) = 2 * k" by simp
  with k cells_nth [OF k] show ?thesis by (simp add: load128_def cell_def)
qed



lemma store128_ri:
  "k < length zs \<Longrightarrow>
     store128 \<lparr>regs = X, mem = cells zs\<rparr> (16 * int k) v =
       Inr \<lparr>regs = X, mem = cells (store_i (store_r zs k (fst v)) k (snd v))\<rparr>"
proof -
  assume k: "k < length zs"
  have n: "nat (2 * int k) = 2 * k" by simp
  have "(cells zs)[2 * k := fst v, Suc (2 * k) := snd v] = cells (store_i (store_r zs k (fst v)) k (snd v))"
    using k by (simp add: cells_store_r cells_store_i)
  with k show ?thesis by (simp add: store128_def cell_def n)
qed

lemma i_store_r [simp]: "i (store_r zs k v ! j) = i (zs ! j)"
  by (cases "k = j"; cases "k < length zs") (simp_all add: store_r_def list_update_beyond not_less)

lemma r_store_i [simp]: "r (store_i zs k v ! j) = r (zs ! j)"
  by (cases "k = j"; cases "k < length zs") (simp_all add: store_i_def list_update_beyond not_less)

lemma r_store_r [simp]: "k < length zs \<Longrightarrow> r (store_r zs k v ! k) = v"
  by (simp add: store_r_def)

lemma i_store_i [simp]: "k < length zs \<Longrightarrow> i (store_i zs k v ! k) = v"
  by (simp add: store_i_def)

lemma names_dsp:
  assumes "names n c" "n \<le> 8"
  shows "sint (dsp c) = 16 * int (idx c)" and "sint (dsp c + 8) = 16 * int (idx c) + 8"
    and "idx c < n"
  using assms sint_dsp [of c] by (auto simp: names_def idx_def)

lemma exec_assign:
  assumes s: "names (length zs) s" and d: "names (length zs) d" and n: "length zs \<le> 8"
  shows "\<exists>X'. exec_list F (asm_of 0x3d s d) \<lparr>regs = X, mem = cells zs\<rparr> =
           Inr \<lparr>regs = X', mem = cells (store_i (store_r zs (idx d) (r (zs ! idx s))) (idx d) (i (zs ! idx s)))\<rparr>"
  by (simp add: asm_of_def names_dsp [OF s n] names_dsp [OF d n] load128_ri store128_ri set_reg_def)









lemma disasm_Nil [simp]: "disasm [] = Some []"
  by (subst disasm.simps) simp

lemma disasm_ret [simp]: "disasm [0xc3] = Some [Ret]"
  by (subst disasm.simps) simp

lemma decodes_nonempty: "decodes xs bs = Some rest \<Longrightarrow> xs \<noteq> [] \<Longrightarrow> bs \<noteq> []"
  by (cases xs) (auto split: option.splits)

lemma disasm_decodes:
  "decodes xs bs = Some rest \<Longrightarrow> disasm bs = map_option ((@) xs) (disasm rest)"
proof (induction xs arbitrary: bs)
  case Nil
  then show ?case by (simp add: option.map_ident)
next
  case (Cons x xs)
  from Cons.prems obtain bs' where d: "decode bs = Some (x, bs')" and ds: "decodes xs bs' = Some rest"
    by (auto split: option.splits if_splits)
  from d have "bs \<noteq> []" by auto
  with d Cons.IH [OF ds] show ?case
    by (subst disasm.simps) (simp add: option.map_comp comp_def cong: option.map_cong)
qed

lemma compile_loop_known:
  "compile_loop a code = Inr a' \<Longrightarrow> disasm (body code @ [0xc3]) = Some (asm_body code @ [Ret])"
proof (induction a code rule: compile_loop.induct)
  case (4 a c s d rest)
  show ?case
  proof (cases "c = 0")
    case True
    then show ?thesis by simp
  next
    case False
    with "4.prems" obtain a1 where a1: "compile_instr a c s d (c # s # d # rest) = Inr a1"
      and l: "compile_loop a1 rest = Inr a'"
      by (auto split: sum.splits)
    from compile_instr_Inr [OF a1] have k: "known c" by simp
    from "4.IH" [OF False a1 l] False
      disasm_decodes [OF decodes_code_of [OF k, of s d "body rest @ [0xc3]"]]
    show ?thesis by simp
  qed
qed (auto split: if_splits sum.splits)

lemma disasm_compile:
  assumes "compile code = Inr fn"
  shows "disasm fn = Some (asm_body code @ [Ret])"
proof -
  from assms obtain a where l: "compile_loop \<lparr>dest = []\<rparr> code = Inr a"
    by (auto simp: compile_def split: sum.splits)
  from compile_loop_known [OF l] compile_Inr [OF assms] show ?thesis by simp
qed

lemma Ret_notin_asm_body: "Ret \<notin> set (asm_body code)"
  by (induction code rule: asm_body.induct) (simp_all add: Ret_notin_asm_of)



lemma even_dsp: "even (dsp c)" "even (dsp c + 8)"
  by (simp_all add: dsp_def sizeof_complex_def)

lemma dsp_not_ret: "dsp c \<noteq> 0xc3" "dsp c + 8 \<noteq> 0xc3"
proof -
  have "odd (0xc3 :: byte)" by simp
  with even_dsp [of c] show "dsp c \<noteq> 0xc3" "dsp c + 8 \<noteq> 0xc3" by metis+
qed

lemma ret_notin_code_of: "0xc3 \<notin> set (code_of c s d)"
  using dsp_not_ret [of s] dsp_not_ret [of d] by (auto simp: code_of_def)

lemma ret_notin_body: "0xc3 \<notin> set (body code)"
  by (induction code rule: body.induct) (simp_all add: ret_notin_code_of)

lemma length_body: "length (body code) \<le> 62 * (length code div 3)"
proof (induction code rule: body.induct)
  case (1 c s d rest)
  have "length (code_of c s d) \<le> 62" by (simp add: length_code_of)
  moreover have "length (c # s # d # rest) div 3 = Suc (length rest div 3)" by simp
  ultimately show ?case using 1 by (auto simp del: length_Cons)
qed simp_all


lemma complex_both: "(z :: 'd complex)\<lparr>r := a, i := b\<rparr> = \<lparr>r = a, i = b\<rparr>"
  by (cases z) simp

lemma store_both: "k < length zs \<Longrightarrow> store_i (store_r zs k a) k b = zs[k := \<lparr>r = a, i = b\<rparr>]"
  by (simp add: store_i_def store_r_def complex_both)

lemma compile_single:
  "known c \<Longrightarrow> compile [c, s, d] = Inr (code_of c s d @ [0xc3])"
  using compile_complete [of "[c, s, d]"] known_nonzero [of c]
  by (simp add: length_code_of page_size_def)

lemma invoke_single:
  assumes k: "known c"
    and e: "exec_list F (asm_of c s d) \<lparr>regs = X, mem = cells zs\<rparr> = Inr \<lparr>regs = X', mem = cells zs'\<rparr>"
  shows "invoke F (code_of c s d @ [0xc3]) X zs = Inr zs'"
  using run_decodes [OF decodes_code_of [OF k, of s d "[0xc3]"] Ret_notin_asm_of, of F "\<lparr>regs = X, mem = cells zs\<rparr>"]
  by (simp add: invoke_def e run_ret)


lemma body_fits: "length code \<le> 198 \<Longrightarrow> length (body code) < page_size"
proof -
  assume "length code \<le> 198"
  then have "length code div 3 \<le> 66" by simp
  then have "62 * (length code div 3) \<le> 4092" by simp
  with length_body [of code] show ?thesis by (simp add: page_size_def)
qed

lemma invoke_assign:
  assumes s: "names (length zs) s" and d: "names (length zs) d" and n: "length zs \<le> 8"
  shows "invoke F (code_of 0x3d s d @ [0xc3]) X zs = Inr (zs[idx d := \<lparr>r = r (zs ! idx s), i = i (zs ! idx s)\<rparr>])"
proof -
  have k: "known 0x3d" by (simp add: known_def)
  from exec_assign [OF s d n, of F X] obtain X' where
    e: "exec_list F (asm_of 0x3d s d) \<lparr>regs = X, mem = cells zs\<rparr> =
          Inr \<lparr>regs = X', mem = cells (store_i (store_r zs (idx d) (r (zs ! idx s))) (idx d) (i (zs ! idx s)))\<rparr>"
    by blast
  from invoke_single [OF k e] names_dsp(3) [OF d n] show ?thesis by (simp add: store_both)
qed



section \<open>The claims\<close>




text \<open>
  The program \<open>=az\<close> names register 25, which a file of 4 does not have. \<open>compile\<close>
  succeeds and the store goes to displacement \<open>0x90\<close>, that is \<open>-112\<close>.
\<close>

theorem C2_counterexample:
  "compile (cstr ''=az'') = Inr [0x66, 0x0f, 0x10, 0x47, 0x00, 0x66, 0x0f, 0x11, 0x47, 0x90, 0xc3] \<and>
   \<not> names 4 0x7a"
  by code_simp

text \<open>
  C2, as the code has it. \<open>compile\<close> makes no check of the operand characters: every
  program of at most 66 complete instructions with known opcodes compiles, whatever its
  operands are, to the bytes of its instructions followed by \<open>ret\<close>; the displacement
  emitted for an operand \<open>c\<close> is the low byte of \<open>16 * (c - 'a')\<close>. The witness is
  \<open>=az\<close>.
\<close>

theorem C2_operands_unchecked:
  assumes "complete code" and "length code \<le> 198"
  shows "compile code = Inr (body code @ [0xc3])"
  using assms by (simp add: compile_complete body_fits)

theorem C2_operands_unchecked_witness:
  "complete (cstr ''=az'') \<and> length (cstr ''=az'') \<le> 198 \<and>
   compile (cstr ''=az'') = Inr (body (cstr ''=az'') @ [0xc3]) \<and>
   body (cstr ''=az'') = [0x66, 0x0f, 0x10, 0x47, 0x00, 0x66, 0x0f, 0x11, 0x47, 0x90]"
proof -
  have c: "complete (cstr ''=az'')" by code_simp
  have l: "length (cstr ''=az'') \<le> 198" by (simp add: cstr_def)
  have b: "body (cstr ''=az'') = [0x66, 0x0f, 0x10, 0x47, 0x00, 0x66, 0x0f, 0x11, 0x47, 0x90]"
    by code_simp
  from C2_operands_unchecked [OF c l] c l b show ?thesis by simp
qed

text \<open>
  The ninth register \<open>i\<close> is at offset 128. \<open>compile\<close> succeeds on \<open>=ai\<close> and emits
  the displacement byte \<open>0x80\<close>, which the processor reads as \<open>-128\<close>.
\<close>

theorem C3_counterexample:
  "compile (cstr ''=ai'') = Inr [0x66, 0x0f, 0x10, 0x47, 0x00, 0x66, 0x0f, 0x11, 0x47, 0x80, 0xc3] \<and>
   names 9 0x69 \<and>
   sizeof_complex * (sint (0x69 :: byte) - 0x61) = 128 \<and>
   sint (dsp 0x69) = - 128"
  by code_simp

text \<open>
  C3, as the code has it. The encoders take the displacement as a \<open>char\<close> and emit it
  as it is; the conversion to \<open>char\<close> in \<open>compile\<close> keeps the low eight bits and
  reports nothing. For the first 8 registers nothing is lost: the displacements of both
  fields are the true offsets \<open>16 * k\<close> and \<open>16 * k + 8\<close>, between 0 and 127.
\<close>

theorem C3_displacements:
  assumes "names 8 c"
  shows "sint (dsp c) = sizeof_complex * (sint c - 0x61) \<and>
         sint (dsp c + offsetof_i) = sizeof_complex * (sint c - 0x61) + 8 \<and>
         0 \<le> sint (dsp c) \<and> sint (dsp c + offsetof_i) \<le> 127"
  using assms sint_dsp [of c] by (auto simp: names_def sizeof_complex_def offsetof_i_def)

theorem C3_displacements_witness:
  "names 8 0x68 \<and> sint (dsp 0x68) = 112 \<and> sint (dsp 0x68 + offsetof_i) = 120"
proof -
  have n: "names 8 0x68" by (simp add: names_def)
  from C3_displacements [OF n] n show ?thesis by (simp add: sizeof_complex_def)
qed





text \<open>
  C6. Whenever \<open>compile\<close> accepts a program, what it returns is what the loop wrote
  followed by the single byte \<open>c3\<close>. No byte written by the loop is \<open>c3\<close>, and the
  whole code decodes into a sequence of instructions whose last one is \<open>ret\<close> and
  which contains no other \<open>ret\<close>. The empty program is accepted, and its code is
  this one byte.
\<close>

theorem C6_ret_last:
  assumes c: "compile code = Inr fn"
  shows "\<exists>a. compile_loop \<lparr>dest = []\<rparr> code = Inr a \<and> fn = dest a @ [0xc3] \<and>
           0xc3 \<notin> set (dest a) \<and>
           (\<exists>xs. disasm fn = Some (xs @ [Ret]) \<and> Ret \<notin> set xs) \<and>
           compile [] = Inr [0xc3]"
proof -
  have e: "compile [] = Inr [0xc3]"
    by (simp add: compile_def asm_write_def page_size_def)
  from c obtain a where l: "compile_loop \<lparr>dest = []\<rparr> code = Inr a"
    and fn: "fn = dest a @ [0xc3]"
    by (auto simp: compile_def asm_write_def split: sum.splits if_splits)
  from compile_loop_Inr [OF l] have d: "dest a = body code" by simp
  from disasm_compile [OF c] Ret_notin_asm_body [of code]
  have "\<exists>xs. disasm fn = Some (xs @ [Ret]) \<and> Ret \<notin> set xs" by blast
  with l fn d e ret_notin_body [of code] show ?thesis by simp
qed

theorem C6_ret_last_witness:
  "compile (cstr ''=ab'') = Inr [0x66, 0x0f, 0x10, 0x47, 0x00, 0x66, 0x0f, 0x11, 0x47, 0x10, 0xc3] \<and>
   (\<exists>a. compile_loop \<lparr>dest = []\<rparr> (cstr ''=ab'') = Inr a \<and>
      [0x66, 0x0f, 0x10, 0x47, 0x00, 0x66, 0x0f, 0x11, 0x47, 0x10, 0xc3] = dest a @ [0xc3] \<and>
      0xc3 \<notin> set (dest a) \<and>
      (\<exists>xs. disasm [0x66, 0x0f, 0x10, 0x47, 0x00, 0x66, 0x0f, 0x11, 0x47, 0x10, 0xc3] = Some (xs @ [Ret]) \<and>
         Ret \<notin> set xs) \<and>
      compile [] = Inr [0xc3])"
proof -
  have c: "compile (cstr ''=ab'') = Inr [0x66, 0x0f, 0x10, 0x47, 0x00, 0x66, 0x0f, 0x11, 0x47, 0x10, 0xc3]"
    by code_simp
  from C6_ret_last [OF c] c show ?thesis by simp
qed




text \<open>
  C8. The routine compiled from \<open>=ab\<close>, invoked on \<open>a = (3, 4)\<close>, \<open>b = (9, -1)\<close>,
  leaves \<open>b = (3, 4)\<close> and everything else as it was. The result is the same whatever
  the xmm registers hold at the call (\<open>X\<close> and \<open>Y\<close>), and invoking the routine on its
  own output changes nothing.
\<close>

theorem C8_assign_pure:
  fixes c d :: "'d::comm_ring_1 complex"
  shows "\<exists>fn. compile (cstr ''=ab'') = Inr fn \<and>
           invoke F fn X [\<lparr>r = 3, i = 4\<rparr>, \<lparr>r = 9, i = - 1\<rparr>, c, d] =
             Inr [\<lparr>r = 3, i = 4\<rparr>, \<lparr>r = 3, i = 4\<rparr>, c, d] \<and>
           invoke F fn Y [\<lparr>r = 3, i = 4\<rparr>, \<lparr>r = 9, i = - 1\<rparr>, c, d] =
             Inr [\<lparr>r = 3, i = 4\<rparr>, \<lparr>r = 3, i = 4\<rparr>, c, d] \<and>
           invoke F fn Y [\<lparr>r = 3, i = 4\<rparr>, \<lparr>r = 3, i = 4\<rparr>, c, d] =
             Inr [\<lparr>r = 3, i = 4\<rparr>, \<lparr>r = 3, i = 4\<rparr>, c, d]"
proof -
  have p: "cstr ''=ab'' = [0x3d, 0x61, 0x62]" by (simp add: cstr_def)
  have k: "known 0x3d" by (simp add: known_def)
  have ix: "idx 0x61 = 0" "idx 0x62 = 1" by (simp_all add: idx_def)
  have inv: "invoke F (code_of 0x3d 0x61 0x62 @ [0xc3]) Z [a, b, c, d] =
      Inr [a, \<lparr>r = r a, i = i a\<rparr>, c, d]" for Z and a b :: "'d complex"
  proof -
    have nm: "names (length [a, b, c, d]) 0x61" "names (length [a, b, c, d]) 0x62"
      by (simp_all add: names_def)
    have n: "length [a, b, c, d] \<le> 8" by simp
    from invoke_assign [OF nm n, of F Z] show ?thesis by (simp add: ix)
  qed
  show ?thesis
    unfolding p using compile_single [OF k, of "0x61" "0x62"]
    by (simp add: inv)
qed

theorem C8_assign_pure_witness:
  "\<exists>fn. compile (cstr ''=ab'') = Inr fn \<and>
     invoke exact fn cleared [\<lparr>r = 3, i = 4\<rparr>, \<lparr>r = 9, i = - 1\<rparr>, \<lparr>r = 0, i = 0\<rparr>, \<lparr>r = 0, i = 0 :: int\<rparr>] =
       Inr [\<lparr>r = 3, i = 4\<rparr>, \<lparr>r = 3, i = 4\<rparr>, \<lparr>r = 0, i = 0\<rparr>, \<lparr>r = 0, i = 0\<rparr>]"
  using C8_assign_pure [of exact cleared "\<lparr>r = 0, i = 0 :: int\<rparr>" "\<lparr>r = 0, i = 0\<rparr>" cleared]
  by blast



text \<open>
  C10. The empty program compiles to the single instruction \<open>ret\<close>, and the routine
  leaves every register file as it is.
\<close>

theorem C10_empty_program:
  "compile [] = Inr [0xc3] \<and> disasm [0xc3] = Some [Ret] \<and> invoke F [0xc3] X zs = Inr zs"
  by (simp add: compile_def asm_write_def page_size_def invoke_def run_ret)

theorem C10_empty_program_witness:
  "compile (cstr '''') = Inr [0xc3] \<and>
   invoke exact [0xc3] cleared [\<lparr>r = 1, i = 2\<rparr>, \<lparr>r = 3, i = 4 :: int\<rparr>] =
     Inr [\<lparr>r = 1, i = 2\<rparr>, \<lparr>r = 3, i = 4\<rparr>]"
  using C10_empty_program [of exact cleared "[\<lparr>r = 1, i = 2\<rparr>, \<lparr>r = 3, i = 4 :: int\<rparr>]"]
  by (simp add: cstr_def)

end
